theory Spec2Isabelle
  imports Main "HOL-Library.Word" "HOL-Library.Multiset"
begin

section \<open>Named arguments: the data model of igor.hpp\<close>

text \<open>
  The header works on template parameter packs. A pack of argument types is a list of
  type descriptors, a pack of arguments a list of values, and a tag type is an element
  of an arbitrary type \<open>'tag\<close>, on which \<^verbatim>\<open>std::is_same_v\<close> is equality.
  The type traits see every argument type through \<^verbatim>\<open>uncvref_t\<close>, which removes
  the reference and the cv-qualifiers; the type descriptors below are the types after
  \<^verbatim>\<open>uncvref_t\<close>. Overload resolution sees the qualifiers, so an argument that is a
  tagged container carries the cv-qualification of its type in the pack.
\<close>

text \<open>
  The second template parameter of \<^verbatim>\<open>tagged_container\<close> is always a reference
  type (the \<^verbatim>\<open>static_assert\<close> of the struct); what the parser looks at is
  whether it is an rvalue reference.
\<close>

datatype ref_kind = Lvalue_reference | Rvalue_reference

text \<open>
  \<^verbatim>\<open>struct tagged_container { using tag_type = Tag; T value; }\<close>: the tag, the
  kind of the reference type \<^verbatim>\<open>T\<close>, and the object the member \<^verbatim>\<open>value\<close>
  refers to.
\<close>

record ('tag, 'v) tagged_container =
  tag_type :: 'tag
  value_type :: ref_kind
  val :: 'v

text \<open>An expression given to a named argument is an lvalue or an rvalue of some object.\<close>

datatype 'v expr = Lvalue_expr 'v | Rvalue_expr 'v

text \<open>
  \<^verbatim>\<open>named_argument<Tag>::operator=(T &&x)\<close>: the forwarding reference makes
  \<^verbatim>\<open>T &&\<close> an lvalue reference for an lvalue and an rvalue reference for an rvalue.
  The overloads for \<^verbatim>\<open>std::initializer_list\<close> do the same for the four kinds of
  reference to a list. A named argument itself is represented by its tag.
\<close>

fun named_argument_assign :: "'tag \<Rightarrow> 'v expr \<Rightarrow> ('tag, 'v) tagged_container" where
  "named_argument_assign narg (Lvalue_expr x) =
     \<lparr>tag_type = narg, value_type = Lvalue_reference, val = x\<rparr>"
| "named_argument_assign narg (Rvalue_expr x) =
     \<lparr>tag_type = narg, value_type = Rvalue_reference, val = x\<rparr>"

text \<open>
  The cv-qualification of an argument type: \<^verbatim>\<open>tagged_container<Tag, T>\<close>,
  \<^verbatim>\<open>const tagged_container<Tag, T>\<close>, \<^verbatim>\<open>volatile tagged_container<Tag, T>\<close> or
  \<^verbatim>\<open>const volatile tagged_container<Tag, T>\<close>, behind a reference or not.
\<close>

datatype cv_qualifier = Unqualified | Const | Volatile | Const_volatile

fun is_volatile :: "cv_qualifier \<Rightarrow> bool" where
  "is_volatile Unqualified = False"
| "is_volatile Const = False"
| "is_volatile Volatile = True"
| "is_volatile Const_volatile = True"

text \<open>
  An argument of a call is a tagged container, of a type with some cv-qualification, or
  anything else; its type, after \<^verbatim>\<open>uncvref_t\<close>, is
  \<^verbatim>\<open>tagged_container<Tag, T>\<close> or some other type.
\<close>

datatype ('tag, 'v, 'u) arg =
  Tagged cv_qualifier "('tag, 'v) tagged_container" | Untagged 'u

datatype 'tag arg_type = Tagged_container_type 'tag ref_kind | Other_type

text \<open>\<^verbatim>\<open>uncvref_t\<close> of the type of an argument: the qualifiers are gone.\<close>

fun arg_type_of :: "('tag, 'v, 'u) arg \<Rightarrow> 'tag arg_type" where
  "arg_type_of (Tagged cv c) = Tagged_container_type (tag_type c) (value_type c)"
| "arg_type_of (Untagged _) = Other_type"

text \<open>
  What a fetch hands back: a const reference to the global \<^verbatim>\<open>not_provided\<close>
  object, the referenced object as an lvalue, or the referenced object moved
  (\<^verbatim>\<open>std::move\<close>).
\<close>

datatype 'v fetched = Not_provided | Lvalue 'v | Xvalue 'v

fun fetched_object :: "'v fetched \<Rightarrow> 'v option" where
  "fetched_object Not_provided = None"
| "fetched_object (Lvalue x) = Some x"
| "fetched_object (Xvalue x) = Some x"

section \<open>Type traits and fold expressions\<close>

text \<open>
  \<^verbatim>\<open>is_tagged_container<Tag, T>\<close>: true exactly on \<^verbatim>\<open>tagged_container<Tag, \<dots>>\<close>
  with the same tag, any second parameter.
\<close>

fun is_tagged_container :: "'tag \<Rightarrow> 'tag arg_type \<Rightarrow> bool" where
  "is_tagged_container Tag (Tagged_container_type Tag' T) = (Tag' = Tag)"
| "is_tagged_container Tag Other_type = False"

fun is_tagged_container_any :: "'tag arg_type \<Rightarrow> bool" where
  "is_tagged_container_any (Tagged_container_type Tag T) = True"
| "is_tagged_container_any Other_type = False"

text \<open>
  The unary left folds \<^verbatim>\<open>(... || E)\<close> and \<^verbatim>\<open>(... && E)\<close>: on an empty pack
  they are \<^verbatim>\<open>false\<close> and \<^verbatim>\<open>true\<close>, otherwise
  \<^verbatim>\<open>((E1 op E2) op ...) op En\<close>.
\<close>

fun fold_or :: "bool list \<Rightarrow> bool" where
  "fold_or [] = False"
| "fold_or (e # es) = foldl (\<or>) e es"

fun fold_and :: "bool list \<Rightarrow> bool" where
  "fold_and [] = True"
| "fold_and (e # es) = foldl (\<and>) e es"

text \<open>
  \<^verbatim>\<open>std::size_t\<close> is taken as an unsigned 64-bit integer, on which \<open>+\<close> wraps.
  The binary left fold \<^verbatim>\<open>(init + ... + E)\<close> is \<^verbatim>\<open>((init + E1) + ...) + En\<close>.
\<close>

type_synonym size_t = "64 word"

definition fold_plus :: "size_t \<Rightarrow> size_t list \<Rightarrow> size_t" where
  "fold_plus init es = foldl (+) init es"

section \<open>The free functions\<close>

definition has :: "'tag arg_type list \<Rightarrow> 'tag \<Rightarrow> bool" where
  "has Args narg = fold_or (map (\<lambda>A. is_tagged_container narg A) Args)"

definition has_all :: "'tag arg_type list \<Rightarrow> 'tag list \<Rightarrow> bool" where
  "has_all Args nargs = fold_and (map (\<lambda>narg. has Args narg) nargs)"

definition has_any :: "'tag arg_type list \<Rightarrow> 'tag list \<Rightarrow> bool" where
  "has_any Args nargs = fold_or (map (\<lambda>narg. has Args narg) nargs)"

definition has_unnamed_arguments :: "'tag arg_type list \<Rightarrow> bool" where
  "has_unnamed_arguments Args = fold_or (map (\<lambda>A. \<not> is_tagged_container_any A) Args)"

definition has_other_than :: "'tag arg_type list \<Rightarrow> 'tag list \<Rightarrow> bool" where
  "has_other_than Args nargs =
     (fold_plus 0 (map (\<lambda>narg. of_bool (has Args narg)) nargs)
        < fold_plus 0 (map (\<lambda>A. of_bool (is_tagged_container_any A)) Args))"

section \<open>The parser\<close>

text \<open>
  \<^verbatim>\<open>build_parser_tuple\<close>. The overload that keeps its first argument takes a
  \<^verbatim>\<open>const tagged_container<Tag, T> &\<close>: it is the more specialised one and is chosen
  for a tagged container that is not volatile-qualified. A reference to const cannot
  bind a volatile-qualified container, so for such a first argument only the generic
  overload \<^verbatim>\<open>(const Arg0 &, const Args &...)\<close> is viable, as for every argument that is
  not a tagged container: the argument is skipped.
\<close>

fun build_parser_tuple :: "('tag, 'v, 'u) arg list \<Rightarrow> ('tag, 'v) tagged_container list" where
  "build_parser_tuple [] = []"
| "build_parser_tuple (Untagged _ # args) = build_parser_tuple args"
| "build_parser_tuple (Tagged cv arg0 # args) =
     (if is_volatile cv then build_parser_tuple args
      else [arg0] @ build_parser_tuple args)"

text \<open>
  \<^verbatim>\<open>class parser<ParseArgs...>\<close>: the pack of the class template and the member
  \<^verbatim>\<open>m_nargs\<close>, a tuple of references to the tagged containers of the call.
\<close>

record ('tag, 'v) parser =
  ParseArgs :: "'tag arg_type list"
  m_nargs :: "('tag, 'v) tagged_container list"

text \<open>The constructor \<^verbatim>\<open>parser(const ParseArgs &... parse_args)\<close>.\<close>

definition parser :: "('tag, 'v, 'u) arg list \<Rightarrow> ('tag, 'v) parser" where
  "parser parse_args =
     \<lparr>ParseArgs = map arg_type_of parse_args, m_nargs = build_parser_tuple parse_args\<rparr>"

text \<open>
  The innermost branch of \<^verbatim>\<open>fetch_one_impl\<close>: a member \<^verbatim>\<open>value\<close> of rvalue
  reference type is returned through \<^verbatim>\<open>std::move\<close>, any other as it is.
\<close>

definition get_value :: "('tag, 'v) tagged_container \<Rightarrow> 'v fetched" where
  "get_value c =
     (if value_type c = Rvalue_reference then Xvalue (val c) else Lvalue (val c))"

text \<open>
  \<^verbatim>\<open>fetch_one_impl<I>\<close>. The instantiation at an index beyond the size of the
  tuple is ill-formed (\<^verbatim>\<open>std::tuple_element_t\<close> out of range): that is \<open>None\<close>.
\<close>

function fetch_one_impl :: "('tag, 'v) parser \<Rightarrow> nat \<Rightarrow> 'tag \<Rightarrow> 'v fetched option" where
  "fetch_one_impl p I narg =
     (if I = length (m_nargs p) then Some Not_provided
      else if length (m_nargs p) < I then None
      else if tag_type (m_nargs p ! I) = narg then Some (get_value (m_nargs p ! I))
      else fetch_one_impl p (I + 1) narg)"
  by pat_completeness auto
termination
  by (relation "measure (\<lambda>(p, I, narg). length (m_nargs p) - I)") auto

declare fetch_one_impl.simps [simp del]

text \<open>
  \<^verbatim>\<open>parser::operator()\<close>: nothing for no tag, the fetched reference for one tag,
  a tuple of the fetched references otherwise.
\<close>

datatype 'v fetch_result = Void | Single "'v fetched" | Tuple "'v fetched list"

fun call_operator :: "('tag, 'v) parser \<Rightarrow> 'tag list \<Rightarrow> 'v fetch_result option" where
  "call_operator p [] = Some Void"
| "call_operator p [narg] = map_option Single (fetch_one_impl p 0 narg)"
| "call_operator p nargs = map_option Tuple (those (map (\<lambda>narg. fetch_one_impl p 0 narg) nargs))"

text \<open>The static member functions of the parser forward to the free functions.\<close>

definition parser_has :: "('tag, 'v) parser \<Rightarrow> 'tag \<Rightarrow> bool" where
  "parser_has p narg = has (ParseArgs p) narg"

definition parser_has_all :: "('tag, 'v) parser \<Rightarrow> 'tag list \<Rightarrow> bool" where
  "parser_has_all p nargs = has_all (ParseArgs p) nargs"

definition parser_has_any :: "('tag, 'v) parser \<Rightarrow> 'tag list \<Rightarrow> bool" where
  "parser_has_any p nargs = has_any (ParseArgs p) nargs"

definition parser_has_unnamed_arguments :: "('tag, 'v) parser \<Rightarrow> bool" where
  "parser_has_unnamed_arguments p = has_unnamed_arguments (ParseArgs p)"

definition parser_has_other_than :: "('tag, 'v) parser \<Rightarrow> 'tag list \<Rightarrow> bool" where
  "parser_has_other_than p nargs = has_other_than (ParseArgs p) nargs"

section \<open>Auxiliary definitions for the statements\<close>

text \<open>
  The documented meaning of \<^verbatim>\<open>has_other_than\<close>, in the words of the specification:
  the number of tagged containers in the list exceeds the number of those whose tag
  is among the given tags.
\<close>

definition spec_has_other_than :: "'tag arg_type list \<Rightarrow> 'tag list \<Rightarrow> bool" where
  "spec_has_other_than L tags =
     (length (filter (\<lambda>A. \<exists>t \<in> set tags. is_tagged_container t A) L)
        < length (filter is_tagged_container_any L))"

text \<open>The tags of the tagged containers of a pack, in order.\<close>

definition tags_of :: "'tag arg_type list \<Rightarrow> 'tag list" where
  "tags_of Args =
     concat (map (\<lambda>A. case A of Tagged_container_type Tag T \<Rightarrow> [Tag] | Other_type \<Rightarrow> []) Args)"

text \<open>The tagged container of an argument, if it is one, and whether its type is volatile.\<close>

fun container_of :: "('tag, 'v, 'u) arg \<Rightarrow> ('tag, 'v) tagged_container option" where
  "container_of (Tagged cv c) = Some c"
| "container_of (Untagged _) = None"

fun volatile_container :: "('tag, 'v, 'u) arg \<Rightarrow> bool" where
  "volatile_container (Tagged cv c) = is_volatile cv"
| "volatile_container (Untagged _) = False"

text \<open>
  The call of the specification's scenario: \<^verbatim>\<open>f(x = 1, y = "s", 42)\<close>. The literal
  \<^verbatim>\<open>1\<close> is an rvalue, the string literal \<^verbatim>\<open>"s"\<close> an lvalue; the containers
  are temporaries of unqualified type.
\<close>

definition scenario_args :: "(string, string, nat) arg list" where
  "scenario_args =
     [Tagged Unqualified (named_argument_assign ''x'' (Rvalue_expr ''1'')),
      Tagged Unqualified (named_argument_assign ''y'' (Lvalue_expr ''s'')),
      Untagged 42]"

text \<open>A call that binds the same named argument twice: \<^verbatim>\<open>f(x = 1, x = 2)\<close>.\<close>

definition duplicate_args :: "(string, int, nat) arg list" where
  "duplicate_args =
     [Tagged Unqualified (named_argument_assign ''x'' (Rvalue_expr 1)),
      Tagged Unqualified (named_argument_assign ''x'' (Rvalue_expr 2))]"

text \<open>
  A parser over a volatile-qualified tagged container:
  \<^verbatim>\<open>int v = 5; volatile auto b = (y = v); igor::parser p{b};\<close>, where class template
  argument deduction gives \<^verbatim>\<open>parser<volatile tagged_container<y_tag, int &>>\<close>.
\<close>

definition volatile_args :: "(string, int, nat) arg list" where
  "volatile_args = [Tagged Volatile (named_argument_assign ''y'' (Lvalue_expr 5))]"

section \<open>Fold expressions as list functions\<close>

lemma foldl_or: "foldl (\<or>) b es = (b \<or> (\<exists>e \<in> set es. e))"
  by (induction es arbitrary: b) auto

lemma foldl_and: "foldl (\<and>) b es = (b \<and> (\<forall>e \<in> set es. e))"
  by (induction es arbitrary: b) auto

lemma fold_or_iff: "fold_or es = (\<exists>e \<in> set es. e)"
  by (cases es) (auto simp: foldl_or)

lemma fold_and_iff: "fold_and es = (\<forall>e \<in> set es. e)"
  by (cases es) (auto simp: foldl_and)

lemma foldl_plus_of_bool:
  "foldl (+) (a :: size_t) (map (\<lambda>x. of_bool (P x)) xs) = a + of_nat (length (filter P xs))"
  by (induction xs arbitrary: a) (simp_all add: add.assoc)

lemma fold_plus_count:
  "fold_plus 0 (map (\<lambda>x. of_bool (P x)) xs) = of_nat (length (filter P xs))"
  by (simp add: fold_plus_def foldl_plus_of_bool)

lemma size_t_of_nat_less:
  assumes "m < 2 ^ 64" and "n < 2 ^ 64"
  shows "((of_nat m :: size_t) < of_nat n) = (m < n)"
  using assms by (simp add: word_less_nat_alt unat_of_nat)

lemma length_filter_less: "length xs < n \<Longrightarrow> length (filter P xs) < n"
  by (rule le_less_trans [OF length_filter_le])

lemma is_tagged_container_iff:
  "is_tagged_container Tag A = (\<exists>T. A = Tagged_container_type Tag T)"
  by (cases A) auto

lemma is_tagged_container_any_iff:
  "is_tagged_container_any A = (\<exists>Tag T. A = Tagged_container_type Tag T)"
  by (cases A) auto

lemma has_iff: "has Args narg = (\<exists>A \<in> set Args. is_tagged_container narg A)"
  by (auto simp: has_def fold_or_iff)

section \<open>The presence predicates\<close>

text \<open>
  Claim C3. \<open>has\<close> is true exactly when some element of the argument list is a
  tagged container for the tag, and a permutation of the list does not change it.
\<close>

theorem has_iff_some_binding:
  "(has Args Tag = (\<exists>T. Tagged_container_type Tag T \<in> set Args)) \<and>
   (\<forall>Args'. mset Args' = mset Args \<longrightarrow> has Args' Tag = has Args Tag)"
proof (intro conjI allI impI)
  have "(\<exists>A \<in> set Args. is_tagged_container Tag A)
      = (\<exists>T. Tagged_container_type Tag T \<in> set Args)"
    by (auto simp: is_tagged_container_iff)
  then show "has Args Tag = (\<exists>T. Tagged_container_type Tag T \<in> set Args)"
    by (simp add: has_iff)
next
  fix Args' :: "'a arg_type list"
  assume "mset Args' = mset Args"
  then have "set Args' = set Args" by (rule mset_eq_setD)
  then show "has Args' Tag = has Args Tag" by (simp add: has_iff)
qed

theorem has_iff_some_binding_witness:
  "has [Other_type, Tagged_container_type ''x'' Lvalue_reference] ''x''
   \<and> Tagged_container_type ''x'' Lvalue_reference
       \<in> set [Other_type, Tagged_container_type ''x'' Lvalue_reference]
   \<and> mset [Tagged_container_type ''x'' Lvalue_reference, Other_type]
       = mset [Other_type, Tagged_container_type ''x'' Lvalue_reference]
   \<and> has [Tagged_container_type ''x'' Lvalue_reference, Other_type] ''x''
       = has [Other_type, Tagged_container_type ''x'' Lvalue_reference] ''x''"
  using has_iff_some_binding [of "[Other_type, Tagged_container_type ''x'' Lvalue_reference]" "''x''"]
  by (simp add: has_def)

text \<open>
  Claim C4. \<open>has_all\<close> is the conjunction and \<open>has_any\<close> the disjunction of
  \<open>has\<close> over the given tags: for two tags, and for any list of tags.
\<close>

theorem has_all_and_has_any:
  "has_all Args [A, B] = (has Args A \<and> has Args B) \<and>
   has_any Args [A, B] = (has Args A \<or> has Args B) \<and>
   has_all Args nargs = list_all (\<lambda>narg. has Args narg) nargs \<and>
   has_any Args nargs = list_ex (\<lambda>narg. has Args narg) nargs"
  by (simp add: has_all_def has_any_def fold_and_iff fold_or_iff list_all_iff list_ex_iff)

theorem has_all_and_has_any_witness:
  "\<not> has_all [Tagged_container_type ''x'' Rvalue_reference, Other_type] [''x'', ''z'']
   \<and> has_any [Tagged_container_type ''x'' Rvalue_reference, Other_type] [''x'', ''z'']
   \<and> has [Tagged_container_type ''x'' Rvalue_reference, Other_type] ''x''
   \<and> \<not> has [Tagged_container_type ''x'' Rvalue_reference, Other_type] ''z''"
  using has_all_and_has_any [of "[Tagged_container_type ''x'' Rvalue_reference, Other_type]"
      "''x''" "''z''" "[]"]
  by (simp add: has_def)

text \<open>
  Claim C5. \<open>has_unnamed_arguments\<close> is true exactly when the argument list holds an
  element that is not a tagged container.
\<close>

theorem has_unnamed_arguments_iff:
  "has_unnamed_arguments Args =
     (\<exists>A \<in> set Args. \<not> (\<exists>Tag T. A = Tagged_container_type Tag T))"
  by (simp add: has_unnamed_arguments_def fold_or_iff is_tagged_container_any_iff)

theorem has_unnamed_arguments_iff_witness:
  "has_unnamed_arguments (map arg_type_of scenario_args)
   \<and> \<not> has_unnamed_arguments [Tagged_container_type ''x'' Rvalue_reference]"
  using has_unnamed_arguments_iff [of "map arg_type_of scenario_args"]
    has_unnamed_arguments_iff [of "[Tagged_container_type ''x'' Rvalue_reference]"]
  by (simp add: scenario_args_def)

section \<open>has_other_than\<close>

text \<open>
  Claim C9. For an argument list whose length fits \<^verbatim>\<open>std::size_t\<close> (as the size of
  every pack does), \<open>has_other_than\<close> called with no tag is true exactly when the
  list holds at least one tagged container.
\<close>

theorem has_other_than_no_tags:
  assumes "length Args < 2 ^ 64"
  shows "has_other_than Args [] = (\<exists>A \<in> set Args. is_tagged_container_any A)"
proof -
  have "has_other_than Args [] =
      ((of_nat 0 :: size_t) < of_nat (length (filter is_tagged_container_any Args)))"
    by (simp add: has_other_than_def fold_plus_count) (simp add: fold_plus_def)
  also have "\<dots> = (0 < length (filter is_tagged_container_any Args))"
  proof (rule size_t_of_nat_less)
    show "length (filter is_tagged_container_any Args) < 2 ^ 64"
      by (rule length_filter_less [OF assms])
  qed simp
  also have "\<dots> = (\<exists>A \<in> set Args. is_tagged_container_any A)"
    by (simp add: length_pos_if_in_set filter_empty_conv)
  finally show ?thesis .
qed

theorem has_other_than_no_tags_witness:
  "length [Tagged_container_type ''x'' Rvalue_reference, Other_type] < 2 ^ 64
   \<and> has_other_than [Tagged_container_type ''x'' Rvalue_reference, Other_type] []
   \<and> (\<exists>A \<in> set [Tagged_container_type ''x'' Rvalue_reference, Other_type].
        is_tagged_container_any A)"
  using has_other_than_no_tags [of "[Tagged_container_type ''x'' Rvalue_reference, Other_type]"]
  by simp

text \<open>
  Claim C2. \<open>has_other_than\<close> compares the number of given tags that occur in the
  list with the number of tagged containers of the list. On the call
  \<^verbatim>\<open>f(x = 1, x = 2)\<close> and the single tag \<^verbatim>\<open>x\<close> it answers true (one tag, two
  containers), although no container of the list has a tag other than \<^verbatim>\<open>x\<close>:
  the count of containers does not exceed the count of containers tagged \<^verbatim>\<open>x\<close>.
\<close>

theorem has_other_than_duplicate_binding:
  "has_other_than (map arg_type_of duplicate_args) [''x'']
   \<and> \<not> spec_has_other_than (map arg_type_of duplicate_args) [''x'']"
  by (simp add: has_other_than_def has_def fold_plus_def spec_has_other_than_def
      duplicate_args_def)

text \<open>
  The same counting misses a foreign tag when a tag is given twice: for
  \<^verbatim>\<open>f(x = 1, y = 2)\<close> and the tags \<^verbatim>\<open>x, x\<close> the answer is false.
\<close>

lemma has_other_than_duplicate_tag:
  "\<not> has_other_than [Tagged_container_type ''x'' Rvalue_reference,
                   Tagged_container_type ''y'' Rvalue_reference] [''x'', ''x'']
   \<and> spec_has_other_than [Tagged_container_type ''x'' Rvalue_reference,
                   Tagged_container_type ''y'' Rvalue_reference] [''x'', ''x'']"
  by (simp add: has_other_than_def has_def fold_plus_def spec_has_other_than_def)

text \<open>
  Without duplicates, neither among the tags of the list nor among the given tags, the
  counting is the documented meaning.
\<close>

lemma has_tags_of: "has Args narg = (narg \<in> set (tags_of Args))"
  by (induction Args)
    (auto simp: has_iff tags_of_def is_tagged_container_iff split: arg_type.splits)

lemma length_filter_tagged:
  "length (filter (\<lambda>A. \<exists>t \<in> set tags. is_tagged_container t A) Args)
     = length (filter (\<lambda>t. t \<in> set tags) (tags_of Args))"
  by (induction Args) (auto simp: tags_of_def split: arg_type.splits)

lemma length_filter_mem_commute:
  assumes "distinct xs" and "distinct ys"
  shows "length (filter (\<lambda>x. x \<in> set ys) xs) = length (filter (\<lambda>y. y \<in> set xs) ys)"
proof -
  have dx: "distinct (filter (\<lambda>x. x \<in> set ys) xs)"
    and dy: "distinct (filter (\<lambda>y. y \<in> set xs) ys)"
    using assms by simp_all
  have "set (filter (\<lambda>x. x \<in> set ys) xs) = set (filter (\<lambda>y. y \<in> set xs) ys)"
    by auto
  then have "card (set (filter (\<lambda>x. x \<in> set ys) xs))
      = card (set (filter (\<lambda>y. y \<in> set xs) ys))"
    by (rule arg_cong)
  then show ?thesis
    by (simp only: distinct_card [OF dx] distinct_card [OF dy])
qed

lemma has_other_than_distinct:
  assumes "length Args < 2 ^ 64" and "length nargs < 2 ^ 64"
    and "distinct (tags_of Args)" and "distinct nargs"
  shows "has_other_than Args nargs = spec_has_other_than Args nargs"
proof -
  have "has_other_than Args nargs =
      ((of_nat (length (filter (\<lambda>narg. has Args narg) nargs)) :: size_t)
        < of_nat (length (filter is_tagged_container_any Args)))"
    by (simp add: has_other_than_def fold_plus_count)
  also have "\<dots> = (length (filter (\<lambda>narg. has Args narg) nargs)
        < length (filter is_tagged_container_any Args))"
  proof (rule size_t_of_nat_less)
    show "length (filter (\<lambda>narg. has Args narg) nargs) < 2 ^ 64"
      by (rule length_filter_less [OF assms(2)])
    show "length (filter is_tagged_container_any Args) < 2 ^ 64"
      by (rule length_filter_less [OF assms(1)])
  qed
  also have "length (filter (\<lambda>narg. has Args narg) nargs)
      = length (filter (\<lambda>t. t \<in> set nargs) (tags_of Args))"
    using length_filter_mem_commute [OF assms(4) assms(3)] by (simp add: has_tags_of)
  finally show ?thesis
    by (simp add: spec_has_other_than_def length_filter_tagged)
qed

section \<open>Construction of the parser\<close>

lemma build_parser_tuple_filter:
  assumes "\<forall>a \<in> set args. \<not> volatile_container a"
  shows "map Some (build_parser_tuple args)
     = map container_of (filter (\<lambda>a. is_tagged_container_any (arg_type_of a)) args)"
  using assms by (induction args rule: build_parser_tuple.induct) simp_all

lemma has_build_parser_tuple:
  assumes "\<forall>a \<in> set args. \<not> volatile_container a"
  shows "has (map arg_type_of args) narg
     = (\<exists>c \<in> set (build_parser_tuple args). tag_type c = narg)"
  using assms by (induction args rule: build_parser_tuple.induct) (auto simp: has_iff)

text \<open>
  Claim C6. The constructor should store exactly the arguments that are tagged
  containers. For the parser over one volatile-qualified tagged container it stores
  nothing: the type trait counts the argument as a tagged container (it is the whole
  sub-list of tagged containers of the call), \<open>has_unnamed_arguments\<close> reports no
  unnamed argument, and the tuple \<open>m_nargs\<close> is empty.
\<close>

theorem parser_drops_volatile_container:
  "filter (\<lambda>a. is_tagged_container_any (arg_type_of a)) volatile_args = volatile_args
   \<and> map container_of volatile_args
       = [Some \<lparr>tag_type = ''y'', value_type = Lvalue_reference, val = 5\<rparr>]
   \<and> \<not> has_unnamed_arguments (map arg_type_of volatile_args)
   \<and> m_nargs (parser volatile_args) = []"
  by (simp add: volatile_args_def parser_def has_unnamed_arguments_def)

text \<open>
  When no tagged container of the call is volatile-qualified, the stored tuple is, in
  the order of the call, the containers of the arguments that are tagged containers.
\<close>

lemma parser_keeps_nonvolatile:
  assumes "\<forall>a \<in> set parse_args. \<not> volatile_container a"
  shows "map Some (m_nargs (parser parse_args))
     = map container_of
         (filter (\<lambda>a. is_tagged_container_any (arg_type_of a)) parse_args)"
  using build_parser_tuple_filter [OF assms] by (simp add: parser_def)

lemma parser_keeps_scenario:
  "m_nargs (parser scenario_args) =
     [\<lparr>tag_type = ''x'', value_type = Rvalue_reference, val = ''1''\<rparr>,
      \<lparr>tag_type = ''y'', value_type = Lvalue_reference, val = ''s''\<rparr>]"
  by (simp add: scenario_args_def parser_def)

text \<open>
  Claim C8. Each static query of a parser gives what the free function of the same
  name gives on the types of the arguments the parser was constructed from.
\<close>

theorem parser_static_queries:
  "parser_has (parser parse_args) narg = has (map arg_type_of parse_args) narg \<and>
   parser_has_all (parser parse_args) nargs = has_all (map arg_type_of parse_args) nargs \<and>
   parser_has_any (parser parse_args) nargs = has_any (map arg_type_of parse_args) nargs \<and>
   parser_has_unnamed_arguments (parser parse_args)
     = has_unnamed_arguments (map arg_type_of parse_args) \<and>
   parser_has_other_than (parser parse_args) nargs
     = has_other_than (map arg_type_of parse_args) nargs"
  by (simp add: parser_has_def parser_has_all_def parser_has_any_def
      parser_has_unnamed_arguments_def parser_has_other_than_def parser_def)

theorem parser_static_queries_witness:
  "parser_has (parser scenario_args) ''x''
   \<and> parser_has_all (parser scenario_args) [''x'', ''y'']
   \<and> parser_has_any (parser scenario_args) [''x'', ''y'']
   \<and> parser_has_unnamed_arguments (parser scenario_args)
   \<and> \<not> parser_has_other_than (parser scenario_args) [''x'', ''y'']"
  using parser_static_queries [of scenario_args "''x''" "[''x'', ''y'']"]
  by (simp add: scenario_args_def has_def has_all_def has_any_def has_unnamed_arguments_def
      has_other_than_def fold_plus_def)

section \<open>Fetching\<close>

lemma fetch_one_impl_find:
  "I \<le> length (m_nargs p) \<Longrightarrow>
   fetch_one_impl p I narg =
     Some (case find (\<lambda>c. tag_type c = narg) (drop I (m_nargs p)) of
             None \<Rightarrow> Not_provided | Some c \<Rightarrow> get_value c)"
proof (induction p I narg rule: fetch_one_impl.induct)
  case (1 p I narg)
  show ?case
  proof (cases "I = length (m_nargs p)")
    case True
    then show ?thesis by (subst fetch_one_impl.simps) simp
  next
    case False
    with "1.prems" have lt: "I < length (m_nargs p)" by simp
    then have d: "drop I (m_nargs p) = m_nargs p ! I # drop (Suc I) (m_nargs p)"
      by (simp add: Cons_nth_drop_Suc)
    show ?thesis
    proof (cases "tag_type (m_nargs p ! I) = narg")
      case True
      with lt d show ?thesis by (subst fetch_one_impl.simps) simp
    next
      case ne: False
      from lt have "I + 1 \<le> length (m_nargs p)" by simp
      with "1.IH" False ne lt
      have "fetch_one_impl p (I + 1) narg =
        Some (case find (\<lambda>c. tag_type c = narg) (drop (I + 1) (m_nargs p)) of
             None \<Rightarrow> Not_provided | Some c \<Rightarrow> get_value c)"
        by simp
      with lt d ne show ?thesis by (subst fetch_one_impl.simps) simp
    qed
  qed
qed

lemma fetch_one_impl_0:
  "fetch_one_impl p 0 narg =
     Some (case find (\<lambda>c. tag_type c = narg) (m_nargs p) of
             None \<Rightarrow> Not_provided | Some c \<Rightarrow> get_value c)"
  using fetch_one_impl_find [of 0 p narg] by simp

lemma those_map_Some: "those (map (\<lambda>x. Some (f x)) xs) = Some (map f xs)"
  by (induction xs) simp_all

lemma find_tag_None:
  "(find (\<lambda>c. tag_type c = T) cs = None) = (\<forall>c \<in> set cs. tag_type c \<noteq> T)"
  by (auto simp: find_None_iff)

lemma fetched_object_get_value: "fetched_object (get_value c) = Some (val c)"
  by (simp add: get_value_def)

text \<open>
  Claim C1. For every parser and tag, the fetch of the single tag is well-formed. It
  returns the object that the first stored tagged container with that tag refers to,
  in the order of construction (moved when the container holds an rvalue reference, as
  an lvalue otherwise), and the \<^verbatim>\<open>not_provided\<close> object exactly when no stored
  container has the tag.
\<close>

theorem fetch_first_match:
  "call_operator p [T] =
     Some (Single (case find (\<lambda>c. tag_type c = T) (m_nargs p) of
                     None \<Rightarrow> Not_provided
                   | Some c \<Rightarrow>
                       if value_type c = Rvalue_reference then Xvalue (val c)
                       else Lvalue (val c)))
   \<and> (\<exists>r. call_operator p [T] = Some (Single r)
          \<and> fetched_object r = map_option val (find (\<lambda>c. tag_type c = T) (m_nargs p))
          \<and> (r = Not_provided) = (find (\<lambda>c. tag_type c = T) (m_nargs p) = None))"
proof (cases "find (\<lambda>c. tag_type c = T) (m_nargs p)")
  case None
  then show ?thesis by (simp add: fetch_one_impl_0)
next
  case (Some c)
  then show ?thesis by (simp add: fetch_one_impl_0 get_value_def)
qed

theorem fetch_first_match_witness:
  "call_operator (parser duplicate_args) [''x''] = Some (Single (Xvalue 1))
   \<and> call_operator (parser duplicate_args) [''y''] = Some (Single Not_provided)
   \<and> call_operator (parser scenario_args) [''y''] = Some (Single (Lvalue ''s''))"
  using fetch_first_match [of "parser duplicate_args" "''x''"]
    fetch_first_match [of "parser duplicate_args" "''y''"]
    fetch_first_match [of "parser scenario_args" "''y''"]
  by (simp add: duplicate_args_def scenario_args_def parser_def)

text \<open>
  Claim C7. A fetch with no tag returns nothing. A fetch with two or more tags is
  well-formed and returns a tuple with one component for each tag, in the order given,
  the component for a tag being what the fetch of that tag alone returns.
\<close>

theorem fetch_none_or_tuple:
  "call_operator p [] = Some Void \<and>
   (2 \<le> length nargs \<longrightarrow>
      (\<exists>rs. call_operator p nargs = Some (Tuple rs) \<and> length rs = length nargs \<and>
         (\<forall>i < length nargs. call_operator p [nargs ! i] = Some (Single (rs ! i)))))"
proof (intro conjI impI)
  show "call_operator p [] = Some Void" by simp
next
  let ?f = "\<lambda>narg. case find (\<lambda>c. tag_type c = narg) (m_nargs p) of
             None \<Rightarrow> Not_provided | Some c \<Rightarrow> get_value c"
  assume "2 \<le> length nargs"
  then obtain a b cs where n: "nargs = a # b # cs"
    by (cases nargs; cases "tl nargs") auto
  have "map (\<lambda>narg. fetch_one_impl p 0 narg) nargs = map (\<lambda>narg. Some (?f narg)) nargs"
    by (simp add: fetch_one_impl_0)
  then have "those (map (\<lambda>narg. fetch_one_impl p 0 narg) nargs) = Some (map ?f nargs)"
    by (simp only: those_map_Some)
  then have "call_operator p nargs = Some (Tuple (map ?f nargs))"
    unfolding n by simp
  moreover have "\<forall>i < length nargs.
      call_operator p [nargs ! i] = Some (Single (map ?f nargs ! i))"
    by (simp add: fetch_one_impl_0)
  ultimately show "\<exists>rs. call_operator p nargs = Some (Tuple rs) \<and> length rs = length nargs \<and>
         (\<forall>i < length nargs. call_operator p [nargs ! i] = Some (Single (rs ! i)))"
    by (intro exI [of _ "map ?f nargs"]) simp
qed

theorem fetch_none_or_tuple_witness:
  "call_operator (parser scenario_args) [] = Some Void
   \<and> 2 \<le> length [''y'', ''z'', ''x'']
   \<and> call_operator (parser scenario_args) [''y'', ''z'', ''x'']
       = Some (Tuple [Lvalue ''s'', Not_provided, Xvalue ''1''])"
  using fetch_none_or_tuple [of "parser scenario_args" "[''y'', ''z'', ''x'']"]
  by (simp add: scenario_args_def parser_def fetch_one_impl_0 get_value_def)

text \<open>
  Claim C10. When \<open>has\<close> is true for a tag, the fetch of the tag should return the
  value of a tagged container for it. For the parser over one volatile-qualified
  container tagged \<^verbatim>\<open>y\<close>, \<open>has\<close> and the parser's own static \<open>has\<close> are
  true for \<^verbatim>\<open>y\<close>, the parser stores no container, and the fetch of \<^verbatim>\<open>y\<close>
  returns the \<^verbatim>\<open>not_provided\<close> object.
\<close>

theorem fetch_volatile_container_not_provided:
  "has (map arg_type_of volatile_args) ''y''
   \<and> parser_has (parser volatile_args) ''y''
   \<and> m_nargs (parser volatile_args) = []
   \<and> call_operator (parser volatile_args) [''y''] = Some (Single Not_provided)"
  by (simp add: volatile_args_def parser_def parser_has_def has_def
      fetch_one_impl.simps [of _ 0])

text \<open>
  When no tagged container of the call is volatile-qualified, \<open>has\<close> and the fetch
  agree: the \<^verbatim>\<open>not_provided\<close> object when \<open>has\<close> is false, and otherwise the
  object that a stored container with the tag refers to.
\<close>

lemma fetch_agrees_with_has_nonvolatile:
  assumes nv: "\<forall>a \<in> set L. \<not> volatile_container a"
  shows "(\<not> has (map arg_type_of L) T \<longrightarrow>
      call_operator (parser L) [T] = Some (Single Not_provided)) \<and>
   (has (map arg_type_of L) T \<longrightarrow>
      (\<exists>c \<in> set (m_nargs (parser L)). tag_type c = T \<and>
         call_operator (parser L) [T] =
           Some (Single (if value_type c = Rvalue_reference then Xvalue (val c)
                         else Lvalue (val c)))))"
proof (intro conjI impI)
  assume "\<not> has (map arg_type_of L) T"
  then have "find (\<lambda>c. tag_type c = T) (m_nargs (parser L)) = None"
    by (simp add: has_build_parser_tuple [OF nv] find_tag_None parser_def)
  then show "call_operator (parser L) [T] = Some (Single Not_provided)"
    by (simp add: fetch_one_impl_0)
next
  assume "has (map arg_type_of L) T"
  then have "find (\<lambda>c. tag_type c = T) (m_nargs (parser L)) \<noteq> None"
    by (simp add: has_build_parser_tuple [OF nv] find_tag_None parser_def)
  then obtain c where c: "find (\<lambda>c. tag_type c = T) (m_nargs (parser L)) = Some c"
    by auto
  then have "c \<in> set (m_nargs (parser L))" and "tag_type c = T"
    by (auto simp: find_Some_iff)
  moreover from c have "call_operator (parser L) [T] =
      Some (Single (if value_type c = Rvalue_reference then Xvalue (val c)
                    else Lvalue (val c)))"
    by (simp add: fetch_one_impl_0 get_value_def)
  ultimately show "\<exists>c \<in> set (m_nargs (parser L)). tag_type c = T \<and>
         call_operator (parser L) [T] =
           Some (Single (if value_type c = Rvalue_reference then Xvalue (val c)
                         else Lvalue (val c)))"
    by blast
qed

end
